theory Spec2Isabelle
  imports Main "HOL-Library.AList" "HOL-Library.Multiset"
begin

section \<open>Python values and string formatting\<close>

text \<open>
  The plugin stores event arguments in dictionaries whose values are integers, strings
  or \<open>None\<close>. Strings are modelled as \<open>string\<close> (8-bit characters), Python's unbounded
  integers as \<open>int\<close>.
\<close>

datatype pyval = PyNone | PyInt int | PyStr string

text \<open>\<open>str(n)\<close> for an integer: decimal digits, with a leading minus sign.\<close>

definition digit_char :: "nat \<Rightarrow> char" where
  "digit_char d = ''0123456789'' ! d"

fun str_nat :: "nat \<Rightarrow> string" where
  "str_nat n = (if n < 10 then [digit_char n] else str_nat (n div 10) @ [digit_char (n mod 10)])"

declare str_nat.simps [simp del]

definition str_int :: "int \<Rightarrow> string" where
  "str_int i = (if i < 0 then CHR ''-'' # str_nat (nat (- i)) else str_nat (nat i))"

text \<open>An f-string placeholder holding an optional integer: \<open>None\<close> prints as \<open>None\<close>.\<close>

definition fmt_int_opt :: "int option \<Rightarrow> string" where
  "fmt_int_opt x = (case x of None \<Rightarrow> ''None'' | Some i \<Rightarrow> str_int i)"

text \<open>
  Python's \<open>x or d\<close>: the default replaces every falsy value, which for an optional
  integer is \<open>None\<close> and \<open>0\<close>, and for an optional string \<open>None\<close> and the empty string.
\<close>

definition or_int :: "int option \<Rightarrow> int \<Rightarrow> int" where
  "or_int x d = (case x of None \<Rightarrow> d | Some i \<Rightarrow> if i = 0 then d else i)"

definition or_str :: "string option \<Rightarrow> string \<Rightarrow> string" where
  "or_str x d = (case x of None \<Rightarrow> d | Some s \<Rightarrow> if s = [] then d else s)"

definition py_int_opt :: "int option \<Rightarrow> pyval" where
  "py_int_opt x = (case x of None \<Rightarrow> PyNone | Some i \<Rightarrow> PyInt i)"

text \<open>
  \<open>str.lower()\<close>: the letters \<open>A\<close> to \<open>Z\<close> are mapped to \<open>a\<close> to \<open>z\<close>, every other
  character of the 8-bit alphabet is left as it is. The source compares the result with
  ASCII literals only.
\<close>

definition lower_char :: "char \<Rightarrow> char" where
  "lower_char c =
     (case map_of (zip ''ABCDEFGHIJKLMNOPQRSTUVWXYZ'' ''abcdefghijklmnopqrstuvwxyz'') c of
        None \<Rightarrow> c
      | Some l \<Rightarrow> l)"

definition lower :: "string \<Rightarrow> string" where
  "lower s = map lower_char s"

text \<open>\<open>sub in s\<close> for strings: \<open>sub\<close> occurs in \<open>s\<close> as a contiguous block.\<close>

fun starts_with :: "string \<Rightarrow> string \<Rightarrow> bool" where
  "starts_with [] s = True"
| "starts_with (c # cs) [] = False"
| "starts_with (c # cs) (d # ds) = (c = d \<and> starts_with cs ds)"

fun str_contains :: "string \<Rightarrow> string \<Rightarrow> bool" where
  "str_contains sub [] = (sub = [])"
| "str_contains sub (d # ds) = (starts_with sub (d # ds) \<or> str_contains sub ds)"

section \<open>Event data\<close>

text \<open>The dataclass \<open>RocmEventData\<close>.\<close>

record event_data =
  name :: string
  timestamp :: int
  duration :: "int option"
  category :: "string option"
  pid :: "int option"
  tid :: "int option"
  agent_id :: "int option"
  queue_id :: "int option"
  stream_id :: "int option"
  channel_id :: "string option"
  event_args :: "(string \<times> pyval) list option"

text \<open>
  \<open>RocmEventData(name=..., timestamp=...)\<close>: every other field starts at its
  default \<open>None\<close>.
\<close>

definition RocmEventData :: "string \<Rightarrow> int \<Rightarrow> event_data" where
  "RocmEventData n ts =
     \<lparr>name = n, timestamp = ts, duration = None, category = None, pid = None, tid = None,
      agent_id = None, queue_id = None, stream_id = None, channel_id = None,
      event_args = None\<rparr>"

section \<open>Channel classifier\<close>

text \<open>\<open>_get_channel_id\<close>.\<close>

definition get_channel_id :: "event_data \<Rightarrow> string" where
  "get_channel_id event =
     (let cat = or_str (category event) ''unknown'' in
      case tid event of
        Some t \<Rightarrow> cat @ ''_thread_'' @ str_int t
      | None \<Rightarrow>
          (case queue_id event of
             Some q \<Rightarrow> cat @ ''_queue_'' @ str_int q
           | None \<Rightarrow>
               (case stream_id event of
                  Some s \<Rightarrow> cat @ ''_stream_'' @ str_int s
                | None \<Rightarrow> cat @ ''_default_'' @ str_int (or_int (pid event) 0))))"

text \<open>
  The channel key as the specification words it: the category is replaced by
  \<open>unknown\<close> when it is absent, and only then.
\<close>

definition spec_channel_key :: "event_data \<Rightarrow> string" where
  "spec_channel_key event =
     (let cat = (case category event of None \<Rightarrow> ''unknown'' | Some c \<Rightarrow> c) in
      if tid event \<noteq> None then cat @ ''_thread_'' @ str_int (the (tid event))
      else if queue_id event \<noteq> None then cat @ ''_queue_'' @ str_int (the (queue_id event))
      else if stream_id event \<noteq> None then cat @ ''_stream_'' @ str_int (the (stream_id event))
      else cat @ ''_default_'' @ str_int (or_int (pid event) 0))"

section \<open>Event classes and payload schemas\<close>

text \<open>
  A payload field class is a string field or a signed 64-bit integer field. An event
  class has a name and the ordered members of its payload structure.
\<close>

datatype field_class = StringFC | SignedInt64FC

record event_class =
  ec_name :: string
  payload_fc :: "(string \<times> field_class) list"

definition create_region_field_class :: "(string \<times> field_class) list" where
  "create_region_field_class =
     [(''region_name'', StringFC), (''event_type'', StringFC), (''category'', StringFC),
      (''process_name'', StringFC), (''thread_name'', StringFC), (''pid'', SignedInt64FC),
      (''tid'', SignedInt64FC), (''nid'', SignedInt64FC), (''correlation_id'', SignedInt64FC),
      (''duration'', SignedInt64FC), (''extdata'', StringFC), (''call_stack'', StringFC),
      (''line_info'', StringFC)]"

definition kernel_payload_fc :: "(string \<times> field_class) list" where
  "kernel_payload_fc =
     [(''kernel_name'', StringFC), (''event_type'', StringFC), (''dispatch_id'', SignedInt64FC),
      (''queue_id'', SignedInt64FC), (''stream_id'', SignedInt64FC),
      (''workgroup_size'', StringFC), (''grid_size'', StringFC), (''duration'', SignedInt64FC)]"

definition memory_payload_fc :: "(string \<times> field_class) list" where
  "memory_payload_fc =
     [(''copy_name'', StringFC), (''event_type'', StringFC), (''size'', SignedInt64FC),
      (''dst_agent_id'', SignedInt64FC), (''src_agent_id'', SignedInt64FC),
      (''queue_id'', SignedInt64FC), (''stream_id'', SignedInt64FC),
      (''duration'', SignedInt64FC)]"

definition allocation_payload_fc :: "(string \<times> field_class) list" where
  "allocation_payload_fc =
     [(''allocation_name'', StringFC), (''event_type'', StringFC), (''size'', SignedInt64FC),
      (''agent_id'', SignedInt64FC), (''duration'', SignedInt64FC)]"

definition generic_payload_fc :: "(string \<times> field_class) list" where
  "generic_payload_fc = [(''event_type'', StringFC)]"

text \<open>\<open>_create_event_classes\<close>: the dictionary from class name to event class.\<close>

definition create_event_classes :: "(string \<times> event_class) list" where
  "create_event_classes =
     [(''region_event'', \<lparr>ec_name = ''region_event'', payload_fc = create_region_field_class\<rparr>),
      (''kernel_dispatch_event'',
         \<lparr>ec_name = ''kernel_dispatch_event'', payload_fc = kernel_payload_fc\<rparr>),
      (''memory_copy_event'', \<lparr>ec_name = ''memory_copy_event'', payload_fc = memory_payload_fc\<rparr>),
      (''memory_allocation_event'',
         \<lparr>ec_name = ''memory_allocation_event'', payload_fc = allocation_payload_fc\<rparr>),
      (''generic_event'', \<lparr>ec_name = ''generic_event'', payload_fc = generic_payload_fc\<rparr>)]"

text \<open>\<open>_get_event_class_name_by_category\<close>.\<close>

definition get_event_class_name_by_category :: "event_data \<Rightarrow> string" where
  "get_event_class_name_by_category event =
     (case category event of
        None \<Rightarrow> ''generic_event''
      | Some c \<Rightarrow>
          if c \<noteq> [] then
            (let cat = lower c in
             if cat = ''hip_runtime_api_ext'' then ''region_event''
             else if cat = ''hip_compiler_api_ext'' then ''region_event''
             else if cat = ''kernel_dispatch'' then ''kernel_dispatch_event''
             else if cat = ''memory_copy'' then ''memory_copy_event''
             else if cat = ''memory_allocation'' then ''memory_allocation_event''
             else if str_contains ''region'' (name event) then ''region_event''
             else ''generic_event'')
          else ''generic_event'')"

text \<open>
  The class lookup of \<open>__next__\<close>: the class registered under the resolved name, else
  the class registered under \<open>generic_event\<close>, else nothing.
\<close>

definition lookup_event_class :: "(string \<times> event_class) list \<Rightarrow> event_data \<Rightarrow> event_class option" where
  "lookup_event_class ecs event =
     (case map_of ecs (get_event_class_name_by_category event) of
        Some ec \<Rightarrow> Some ec
      | None \<Rightarrow> map_of ecs ''generic_event'')"

text \<open>
  The schema selection as the specification words it (the table of section 4.3, read top
  down): the region schema for a region-style category or a name containing
  \<open>region\<close>, then the three fixed categories, else the generic schema.
\<close>

definition spec_schema_name :: "event_data \<Rightarrow> string" where
  "spec_schema_name event =
     (let cat = lower (case category event of None \<Rightarrow> [] | Some c \<Rightarrow> c) in
      if cat = ''hip_runtime_api_ext'' \<or> cat = ''hip_compiler_api_ext''
         \<or> str_contains ''region'' (name event) then ''region_event''
      else if cat = ''kernel_dispatch'' then ''kernel_dispatch_event''
      else if cat = ''memory_copy'' then ''memory_copy_event''
      else if cat = ''memory_allocation'' then ''memory_allocation_event''
      else ''generic_event'')"

text \<open>
  The payload of a freshly created event message has one member per field of the event
  class, none of them assigned yet: \<open>None\<close> stands for a member that still holds the
  default of its field class.
\<close>

type_synonym payload = "(string \<times> pyval option) list"

definition new_payload :: "event_class \<Rightarrow> payload" where
  "new_payload ec = map (\<lambda>(k, fc). (k, None)) (payload_fc ec)"

text \<open>
  The field loop of \<open>__next__\<close>: a key of the event arguments is assigned when the
  payload has a member of that name and the value is not \<open>None\<close>.
\<close>

definition set_field :: "string \<times> pyval \<Rightarrow> payload \<Rightarrow> payload" where
  "set_field kv p =
     (if map_of p (fst kv) \<noteq> None
      then (if snd kv \<noteq> PyNone then AList.update (fst kv) (Some (snd kv)) p else p)
      else p)"

definition set_event_fields :: "(string \<times> pyval) list option \<Rightarrow> payload \<Rightarrow> payload" where
  "set_event_fields args p =
     (case args of
        None \<Rightarrow> p
      | Some kvs \<Rightarrow> if kvs \<noteq> [] then fold set_field kvs p else p)"

section \<open>Stream multiplexer\<close>

text \<open>
  A stream of the trace is identified by its creation number: \<open>create_stream\<close> returns a
  new stream each time, and \<open>trace_streams\<close> counts the streams created so far.
\<close>

type_synonym stream = nat

datatype message =
    StreamBeginningMsg stream
  | EventMsg event_class stream int payload
  | StreamEndMsg stream

datatype iter_state = StreamBeginning | Events | StreamEnd | Done

record channel_info =
  ci_category :: "string option"
  ci_channel_id :: string
  ci_tid :: "int option"
  ci_queue_id :: "int option"
  ci_stream_id :: "int option"

text \<open>The fields of \<open>RocmSourceIterator\<close> that \<open>__next__\<close> reads and writes.\<close>

record iter =
  event_classes :: "(string \<times> event_class) list"
  trace_streams :: nat
  streams :: "(string \<times> stream) list"
  channels :: "(string \<times> channel_info) list"
  state :: iter_state
  current_events :: "event_data list"
  event_index :: nat
  current_stream :: "stream option"

text \<open>\<open>_get_or_create_stream\<close>: returns the stream and the updated iterator.\<close>

definition get_or_create_stream :: "iter \<Rightarrow> event_data \<Rightarrow> stream \<times> iter" where
  "get_or_create_stream it event =
     (let cid = get_channel_id event in
      case map_of (streams it) cid of
        None \<Rightarrow>
          (let s = trace_streams it in
           (s, it\<lparr>trace_streams := Suc s,
                  streams := AList.update cid s (streams it),
                  channels := AList.update cid
                    \<lparr>ci_category = category event, ci_channel_id = cid, ci_tid = tid event,
                     ci_queue_id = queue_id event, ci_stream_id = stream_id event\<rparr>
                    (channels it)\<rparr>))
      | Some s \<Rightarrow> (s, it))"

definition iter_measure :: "iter \<Rightarrow> nat" where
  "iter_measure it =
     (case state it of
        StreamBeginning \<Rightarrow> length (current_events it) + 3
      | Events \<Rightarrow> (length (current_events it) - event_index it) + 2
      | StreamEnd \<Rightarrow> 1
      | Done \<Rightarrow> 0)"

lemma get_or_create_stream_frame:
  "state (snd (get_or_create_stream it e)) = state it"
  "current_events (snd (get_or_create_stream it e)) = current_events it"
  "event_index (snd (get_or_create_stream it e)) = event_index it"
  "current_stream (snd (get_or_create_stream it e)) = current_stream it"
  "event_classes (snd (get_or_create_stream it e)) = event_classes it"
  by (simp_all add: get_or_create_stream_def Let_def split: option.split)

lemma iter_measure_get_or_create_stream:
  "iter_measure (snd (get_or_create_stream it e)) = iter_measure it"
  by (simp add: iter_measure_def get_or_create_stream_frame split: iter_state.split)

text \<open>
  \<open>__next__\<close>: the result is the message returned, or \<open>None\<close> for \<open>StopIteration\<close>,
  with the updated iterator. The two self-calls of the source are recursive calls.
\<close>

function next_msg :: "iter \<Rightarrow> message option \<times> iter" where
  "next_msg it =
     (if state it = StreamBeginning then
        (if current_events it \<noteq> [] then
           (let first_event = hd (current_events it);
                r = get_or_create_stream it first_event
            in (Some (StreamBeginningMsg (fst r)),
                (snd r)\<lparr>current_stream := Some (fst r), state := Events\<rparr>))
         else (None, it\<lparr>state := Done\<rparr>))
      else if state it = Events then
        (if event_index it < length (current_events it) then
           (let event = current_events it ! event_index it;
                r = get_or_create_stream (it\<lparr>event_index := event_index it + 1\<rparr>) event
            in if Some (fst r) \<noteq> current_stream (snd r)
               then (Some (StreamBeginningMsg (fst r)), (snd r)\<lparr>current_stream := Some (fst r)\<rparr>)
               else (case lookup_event_class (event_classes (snd r)) event of
                       None \<Rightarrow> next_msg (snd r)
                     | Some ec \<Rightarrow>
                         (Some (EventMsg ec (fst r) (timestamp event)
                                  (set_event_fields (event_args event) (new_payload ec))),
                          snd r)))
         else next_msg (it\<lparr>state := StreamEnd\<rparr>))
      else if state it = StreamEnd then
        (case current_stream it of
           Some s \<Rightarrow> (Some (StreamEndMsg s), it\<lparr>current_stream := None, state := Done\<rparr>)
         | None \<Rightarrow> (None, it\<lparr>state := Done\<rparr>))
      else (None, it))"
  by pat_completeness auto
termination
  by (relation "measure iter_measure")
     (auto simp: iter_measure_get_or_create_stream, auto simp: iter_measure_def)

declare next_msg.simps [simp del]

lemma iter_measure_current_stream:
  "iter_measure (it\<lparr>current_stream := c\<rparr>) = iter_measure it"
  by (simp add: iter_measure_def split: iter_state.split)

text \<open>
  The cursor step of the \<open>events\<close> state, named for the proofs: the event under the
  cursor, and the stream and iterator after the cursor has been incremented and the
  event's stream fetched.
\<close>

definition cursor_event :: "iter \<Rightarrow> event_data" where
  "cursor_event it = current_events it ! event_index it"

definition advance :: "iter \<Rightarrow> stream \<times> iter" where
  "advance it = get_or_create_stream (it\<lparr>event_index := event_index it + 1\<rparr>) (cursor_event it)"

definition open_first :: "iter \<Rightarrow> stream \<times> iter" where
  "open_first it = get_or_create_stream it (hd (current_events it))"

lemma next_msg_begin:
  "state it = StreamBeginning \<Longrightarrow> current_events it \<noteq> [] \<Longrightarrow>
   next_msg it = (Some (StreamBeginningMsg (fst (open_first it))),
                  (snd (open_first it))\<lparr>current_stream := Some (fst (open_first it)), state := Events\<rparr>)"
  by (simp add: next_msg.simps [of it] open_first_def Let_def)

lemma next_msg_empty:
  "state it = StreamBeginning \<Longrightarrow> current_events it = [] \<Longrightarrow>
   next_msg it = (None, it\<lparr>state := Done\<rparr>)"
  by (simp add: next_msg.simps [of it])

lemma next_msg_switch:
  "state it = Events \<Longrightarrow> event_index it < length (current_events it) \<Longrightarrow>
   Some (fst (advance it)) \<noteq> current_stream it \<Longrightarrow>
   next_msg it = (Some (StreamBeginningMsg (fst (advance it))),
                  (snd (advance it))\<lparr>current_stream := Some (fst (advance it))\<rparr>)"
  by (simp add: next_msg.simps [of it] advance_def cursor_event_def Let_def
      get_or_create_stream_frame)

lemma next_msg_emit:
  "state it = Events \<Longrightarrow> event_index it < length (current_events it) \<Longrightarrow>
   Some (fst (advance it)) = current_stream it \<Longrightarrow>
   lookup_event_class (event_classes it) (cursor_event it) = Some ec \<Longrightarrow>
   next_msg it = (Some (EventMsg ec (fst (advance it)) (timestamp (cursor_event it))
                    (set_event_fields (event_args (cursor_event it)) (new_payload ec))),
                  snd (advance it))"
  by (simp add: next_msg.simps [of it] advance_def cursor_event_def Let_def
      get_or_create_stream_frame)

lemma next_msg_skip:
  "state it = Events \<Longrightarrow> event_index it < length (current_events it) \<Longrightarrow>
   Some (fst (advance it)) = current_stream it \<Longrightarrow>
   lookup_event_class (event_classes it) (cursor_event it) = None \<Longrightarrow>
   next_msg it = next_msg (snd (advance it))"
  by (simp add: next_msg.simps [of it] advance_def cursor_event_def Let_def
      get_or_create_stream_frame)

lemma next_msg_exhausted:
  "state it = Events \<Longrightarrow> \<not> event_index it < length (current_events it) \<Longrightarrow>
   next_msg it = next_msg (it\<lparr>state := StreamEnd\<rparr>)"
  by (simp add: next_msg.simps [of it])

lemma next_msg_end:
  "state it = StreamEnd \<Longrightarrow> current_stream it = Some s \<Longrightarrow>
   next_msg it = (Some (StreamEndMsg s), it\<lparr>current_stream := None, state := Done\<rparr>)"
  by (simp add: next_msg.simps [of it])

lemma next_msg_end_none:
  "state it = StreamEnd \<Longrightarrow> current_stream it = None \<Longrightarrow>
   next_msg it = (None, it\<lparr>state := Done\<rparr>)"
  by (simp add: next_msg.simps [of it])

lemma next_msg_done:
  "state it = Done \<Longrightarrow> next_msg it = (None, it)"
  by (simp add: next_msg.simps [of it])

lemma advance_frame:
  "state (snd (advance it)) = state it"
  "current_events (snd (advance it)) = current_events it"
  "event_index (snd (advance it)) = Suc (event_index it)"
  "current_stream (snd (advance it)) = current_stream it"
  "event_classes (snd (advance it)) = event_classes it"
  by (simp_all add: advance_def get_or_create_stream_frame)

lemma open_first_frame:
  "state (snd (open_first it)) = state it"
  "current_events (snd (open_first it)) = current_events it"
  "event_index (snd (open_first it)) = event_index it"
  "current_stream (snd (open_first it)) = current_stream it"
  "event_classes (snd (open_first it)) = event_classes it"
  by (simp_all add: open_first_def get_or_create_stream_frame)

lemma iter_measure_advance:
  "state it = Events \<Longrightarrow> event_index it < length (current_events it) \<Longrightarrow>
   iter_measure (snd (advance it)) < iter_measure it"
  by (simp add: iter_measure_def advance_frame)

text \<open>Every call that returns a message makes progress.\<close>

lemma next_msg_measure:
  "next_msg it = (Some m, it') \<Longrightarrow> iter_measure it' < iter_measure it"
proof (induction it arbitrary: m it' rule: next_msg.induct)
  case (1 it)
  show ?case
  proof (cases "state it")
    case StreamBeginning
    with "1.prems" show ?thesis
      by (cases "current_events it = []")
         (auto simp: next_msg_begin next_msg_empty iter_measure_def open_first_frame)
  next
    case Events
    show ?thesis
    proof (cases "event_index it < length (current_events it)")
      case inside: True
      note less = iter_measure_advance [OF Events inside]
      show ?thesis
      proof (cases "Some (fst (advance it)) = current_stream it")
        case False
        with Events inside "1.prems" less show ?thesis
          by (auto simp: next_msg_switch iter_measure_current_stream)
      next
        case same: True
        show ?thesis
        proof (cases "lookup_event_class (event_classes it) (cursor_event it)")
          case None
          have "next_msg (snd (advance it)) = (Some m, it')"
            using next_msg_skip [OF Events inside same None] "1.prems" by simp
          moreover have "\<not> Some (fst (advance it)) \<noteq> current_stream (snd (advance it))"
            using same by (simp add: advance_frame)
          moreover have "lookup_event_class (event_classes (snd (advance it))) (cursor_event it) = None"
            using None by (simp add: advance_frame)
          ultimately have "iter_measure it' < iter_measure (snd (advance it))"
            using "1.IH"(1) [of "cursor_event it" "advance it" m it'] Events inside
            by (simp add: cursor_event_def advance_def)
          with less show ?thesis by simp
        next
          case (Some ec)
          with Events inside same "1.prems" less show ?thesis
            by (auto simp: next_msg_emit)
        qed
      qed
    next
      case False
      with Events "1.prems"
      have "next_msg (it\<lparr>state := StreamEnd\<rparr>) = (Some m, it')"
        by (simp add: next_msg_exhausted)
      with "1.IH"(2) [of m it'] Events False
      have "iter_measure it' < iter_measure (it\<lparr>state := StreamEnd\<rparr>)" by simp
      with Events show ?thesis by (simp add: iter_measure_def)
    qed
  next
    case StreamEnd
    with "1.prems" show ?thesis
      by (cases "current_stream it")
         (auto simp: next_msg_end next_msg_end_none iter_measure_def)
  next
    case Done
    with "1.prems" show ?thesis
      by (simp add: next_msg_done)
  qed
qed

text \<open>
  The message sequence a consumer sees: it calls \<open>__next__\<close> until the first
  \<open>StopIteration\<close>.
\<close>

function messages :: "iter \<Rightarrow> message list" where
  "messages it =
     (case next_msg it of
        (None, it') \<Rightarrow> []
      | (Some m, it') \<Rightarrow> m # messages it')"
  by pat_completeness auto
termination
  by (relation "measure iter_measure") (auto simp: next_msg_measure [OF sym])

declare messages.simps [simp del]

text \<open>
  The state that \<open>RocmSourceIterator.__init__\<close> sets up, given the event classes of the
  output port and the loaded, sorted event list.
\<close>

definition iter_init :: "(string \<times> event_class) list \<Rightarrow> event_data list \<Rightarrow> iter" where
  "iter_init ecs evs =
     \<lparr>event_classes = ecs, trace_streams = 0, streams = [], channels = [],
      state = StreamBeginning, current_events = evs, event_index = 0, current_stream = None\<rparr>"

section \<open>Record loader\<close>

text \<open>
  The result rows of the four queries. The \<open>start\<close> and \<open>end\<close> columns are integers; the
  other integer columns may be \<open>NULL\<close>. Columns that the query wraps in \<open>COALESCE\<close>, and
  the interned strings reached by an inner join, are strings.
\<close>

record region_row =
  r_start :: int
  r_end :: int
  r_nid :: "int option"
  r_pid :: "int option"
  r_tid :: "int option"
  r_region_name :: string
  r_category :: string
  r_process_name :: string
  r_thread_name :: string
  r_extdata :: "string option"
  r_correlation_id :: "int option"
  r_call_stack :: "string option"
  r_line_info :: "string option"

record kernel_row =
  k_start :: int
  k_end :: int
  k_nid :: "int option"
  k_pid :: "int option"
  k_tid :: "int option"
  k_agent_id :: "int option"
  k_dispatch_id :: "int option"
  k_queue_id :: "int option"
  k_stream_id :: "int option"
  k_workgroup_size_x :: "int option"
  k_workgroup_size_y :: "int option"
  k_workgroup_size_z :: "int option"
  k_grid_size_x :: "int option"
  k_grid_size_y :: "int option"
  k_grid_size_z :: "int option"
  k_kernel_name :: "string option"
  k_display_name :: "string option"

record copy_row =
  m_start :: int
  m_end :: int
  m_nid :: "int option"
  m_pid :: "int option"
  m_tid :: "int option"
  m_size :: "int option"
  m_dst_agent_id :: "int option"
  m_src_agent_id :: "int option"
  m_queue_id :: "int option"
  m_stream_id :: "int option"
  m_name :: string

record alloc_row =
  a_start :: int
  a_end :: int
  a_nid :: "int option"
  a_pid :: "int option"
  a_tid :: "int option"
  a_size :: "int option"
  a_agent_id :: "int option"
  a_name :: string

text \<open>
  A query either fails with \<open>sqlite3.Error\<close> or returns all its rows: \<open>fetchall()\<close>
  has returned before the loop over the rows starts.
\<close>

datatype sqlite3_error = Sqlite3Error

record database =
  q_region :: "sqlite3_error + region_row list"
  q_kernel_dispatch :: "sqlite3_error + kernel_row list"
  q_memory_copy :: "sqlite3_error + copy_row list"
  q_memory_allocation :: "sqlite3_error + alloc_row list"

subsection \<open>Regions\<close>

definition region_common_args :: "region_row \<Rightarrow> (string \<times> pyval) list" where
  "region_common_args row =
     [(''region_name'', PyStr (r_region_name row)),
      (''category'', PyStr (r_category row)),
      (''process_name'', PyStr (r_process_name row)),
      (''thread_name'', PyStr (r_thread_name row)),
      (''pid'', py_int_opt (r_pid row)),
      (''tid'', py_int_opt (r_tid row)),
      (''nid'', py_int_opt (r_nid row)),
      (''correlation_id'', PyInt (or_int (r_correlation_id row) 0)),
      (''extdata'', PyStr (or_str (r_extdata row) ''{}'')),
      (''call_stack'', PyStr (or_str (r_call_stack row) ''{}'')),
      (''line_info'', PyStr (or_str (r_line_info row) ''{}''))]"

definition region_start_event :: "region_row \<Rightarrow> event_data" where
  "region_start_event row =
     (RocmEventData (r_region_name row @ ''_start'') (r_start row))
       \<lparr>category := Some (r_category row), pid := r_pid row, tid := r_tid row,
        event_args := Some
          (AList.update ''duration'' (PyInt 0)
            (AList.update ''event_type'' (PyStr ''region_start'') (region_common_args row)))\<rparr>"

definition region_end_event :: "region_row \<Rightarrow> event_data" where
  "region_end_event row =
     (let duration = r_end row - r_start row in
      (RocmEventData (r_region_name row @ ''_end'') (r_end row))
        \<lparr>category := Some (r_category row), pid := r_pid row, tid := r_tid row,
         event_args := Some
           (AList.update ''duration'' (PyInt duration)
             (AList.update ''event_type'' (PyStr ''region_end'') (region_common_args row)))\<rparr>)"

fun region_rows_loop :: "region_row list \<Rightarrow> event_data list \<Rightarrow> event_data list" where
  "region_rows_loop [] evs = evs"
| "region_rows_loop (row # rows) evs =
     region_rows_loop rows ((evs @ [region_start_event row]) @ [region_end_event row])"

definition load_region_events ::
  "sqlite3_error + region_row list \<Rightarrow> event_data list \<Rightarrow> event_data list" where
  "load_region_events q evs = (case q of Inl e \<Rightarrow> evs | Inr rows \<Rightarrow> region_rows_loop rows evs)"

subsection \<open>Kernel dispatches\<close>

definition kernel_name_of :: "kernel_row \<Rightarrow> string" where
  "kernel_name_of row =
     or_str (k_kernel_name row) (or_str (k_display_name row) ''unknown_kernel'')"

definition size3 :: "int option \<Rightarrow> int option \<Rightarrow> int option \<Rightarrow> string" where
  "size3 x y z = fmt_int_opt x @ ''x'' @ fmt_int_opt y @ ''x'' @ fmt_int_opt z"

definition kernel_start_event :: "kernel_row \<Rightarrow> event_data" where
  "kernel_start_event row =
     (RocmEventData ''kernel_dispatch_start'' (k_start row))
       \<lparr>category := Some ''KERNEL_DISPATCH'', pid := k_pid row, tid := k_tid row,
        agent_id := k_agent_id row, queue_id := k_queue_id row, stream_id := k_stream_id row,
        event_args := Some
          [(''kernel_name'', PyStr (kernel_name_of row)),
           (''dispatch_id'', py_int_opt (k_dispatch_id row)),
           (''queue_id'', PyInt (or_int (k_queue_id row) 0)),
           (''stream_id'', PyInt (or_int (k_stream_id row) 0)),
           (''workgroup_size'',
              PyStr (size3 (k_workgroup_size_x row) (k_workgroup_size_y row) (k_workgroup_size_z row))),
           (''grid_size'', PyStr (size3 (k_grid_size_x row) (k_grid_size_y row) (k_grid_size_z row))),
           (''event_type'', PyStr ''kernel_dispatch_start''),
           (''duration'', PyInt 0)]\<rparr>"

definition kernel_end_event :: "kernel_row \<Rightarrow> event_data" where
  "kernel_end_event row =
     (RocmEventData ''kernel_dispatch_end'' (k_end row))
       \<lparr>category := Some ''KERNEL_DISPATCH'', pid := k_pid row, tid := k_tid row,
        agent_id := k_agent_id row, queue_id := k_queue_id row, stream_id := k_stream_id row,
        event_args := Some
          [(''kernel_name'', PyStr (kernel_name_of row)),
           (''dispatch_id'', py_int_opt (k_dispatch_id row)),
           (''event_type'', PyStr ''kernel_dispatch_end''),
           (''duration'', PyInt (k_end row - k_start row))]\<rparr>"

fun kernel_rows_loop :: "kernel_row list \<Rightarrow> event_data list \<Rightarrow> event_data list" where
  "kernel_rows_loop [] evs = evs"
| "kernel_rows_loop (row # rows) evs =
     kernel_rows_loop rows ((evs @ [kernel_start_event row]) @ [kernel_end_event row])"

definition load_kernel_dispatch_events ::
  "sqlite3_error + kernel_row list \<Rightarrow> event_data list \<Rightarrow> event_data list" where
  "load_kernel_dispatch_events q evs =
     (case q of Inl e \<Rightarrow> evs | Inr rows \<Rightarrow> kernel_rows_loop rows evs)"

subsection \<open>Memory copies\<close>

definition copy_start_event :: "copy_row \<Rightarrow> event_data" where
  "copy_start_event row =
     (RocmEventData ''memory_copy_start'' (m_start row))
       \<lparr>category := Some ''MEMORY_COPY'', pid := m_pid row, tid := m_tid row,
        queue_id := m_queue_id row, stream_id := m_stream_id row,
        event_args := Some
          [(''copy_name'', PyStr (m_name row)),
           (''size'', PyInt (or_int (m_size row) 0)),
           (''dst_agent_id'', PyInt (or_int (m_dst_agent_id row) 0)),
           (''src_agent_id'', PyInt (or_int (m_src_agent_id row) 0)),
           (''queue_id'', PyInt (or_int (m_queue_id row) 0)),
           (''stream_id'', PyInt (or_int (m_stream_id row) 0)),
           (''event_type'', PyStr ''memory_copy_start''),
           (''duration'', PyInt 0)]\<rparr>"

definition copy_end_event :: "copy_row \<Rightarrow> event_data" where
  "copy_end_event row =
     (RocmEventData ''memory_copy_end'' (m_end row))
       \<lparr>category := Some ''MEMORY_COPY'', pid := m_pid row, tid := m_tid row,
        queue_id := m_queue_id row, stream_id := m_stream_id row,
        event_args := Some
          [(''copy_name'', PyStr (m_name row)),
           (''size'', PyInt (or_int (m_size row) 0)),
           (''event_type'', PyStr ''memory_copy_end''),
           (''duration'', PyInt (m_end row - m_start row))]\<rparr>"

fun copy_rows_loop :: "copy_row list \<Rightarrow> event_data list \<Rightarrow> event_data list" where
  "copy_rows_loop [] evs = evs"
| "copy_rows_loop (row # rows) evs =
     copy_rows_loop rows ((evs @ [copy_start_event row]) @ [copy_end_event row])"

definition load_memory_copy_events ::
  "sqlite3_error + copy_row list \<Rightarrow> event_data list \<Rightarrow> event_data list" where
  "load_memory_copy_events q evs =
     (case q of Inl e \<Rightarrow> evs | Inr rows \<Rightarrow> copy_rows_loop rows evs)"

subsection \<open>Memory allocations\<close>

definition alloc_start_event :: "alloc_row \<Rightarrow> event_data" where
  "alloc_start_event row =
     (RocmEventData ''memory_allocation_start'' (a_start row))
       \<lparr>category := Some ''MEMORY_ALLOCATION'', pid := a_pid row, tid := a_tid row,
        agent_id := a_agent_id row,
        event_args := Some
          [(''allocation_name'', PyStr (a_name row)),
           (''size'', PyInt (or_int (a_size row) 0)),
           (''agent_id'', PyInt (or_int (a_agent_id row) 0)),
           (''event_type'', PyStr ''memory_allocation_start''),
           (''duration'', PyInt 0)]\<rparr>"

definition alloc_end_event :: "alloc_row \<Rightarrow> event_data" where
  "alloc_end_event row =
     (RocmEventData ''memory_allocation_end'' (a_end row))
       \<lparr>category := Some ''MEMORY_ALLOCATION'', pid := a_pid row, tid := a_tid row,
        agent_id := a_agent_id row,
        event_args := Some
          [(''allocation_name'', PyStr (a_name row)),
           (''size'', PyInt (or_int (a_size row) 0)),
           (''event_type'', PyStr ''memory_allocation_end''),
           (''duration'', PyInt (a_end row - a_start row))]\<rparr>"

fun alloc_rows_loop :: "alloc_row list \<Rightarrow> event_data list \<Rightarrow> event_data list" where
  "alloc_rows_loop [] evs = evs"
| "alloc_rows_loop (row # rows) evs =
     alloc_rows_loop rows ((evs @ [alloc_start_event row]) @ [alloc_end_event row])"

definition load_memory_allocation_events ::
  "sqlite3_error + alloc_row list \<Rightarrow> event_data list \<Rightarrow> event_data list" where
  "load_memory_allocation_events q evs =
     (case q of Inl e \<Rightarrow> evs | Inr rows \<Rightarrow> alloc_rows_loop rows evs)"

subsection \<open>All families\<close>

text \<open>
  \<open>_load_events\<close>: the four loaders append to the event list in turn
  (\<open>collect_events\<close>), then the list is sorted by timestamp. \<open>list.sort\<close> is a stable
  sort, as \<open>sort_key\<close> is.
\<close>

definition collect_events :: "database \<Rightarrow> event_data list" where
  "collect_events d =
     load_memory_allocation_events (q_memory_allocation d)
       (load_memory_copy_events (q_memory_copy d)
         (load_kernel_dispatch_events (q_kernel_dispatch d)
           (load_region_events (q_region d) [])))"

definition load_events :: "database \<Rightarrow> event_data list" where
  "load_events d = sort_key timestamp (collect_events d)"

text \<open>The iterator as constructed over a database: its events are the loaded ones.\<close>

definition RocmSourceIterator_init :: "(string \<times> event_class) list \<Rightarrow> database \<Rightarrow> iter" where
  "RocmSourceIterator_init ecs d = iter_init ecs (load_events d)"

section \<open>Source component\<close>







section \<open>Properties of the channel classifier\<close>

lemma str_nat_digit: "n < 10 \<Longrightarrow> str_nat n = [digit_char n]"
  by (simp add: str_nat.simps)

text \<open>
  Claim C4, as stated, fails: an event whose category is present but is the empty string
  gets the \<open>unknown\<close> prefix too, because the source writes \<open>category or 'unknown'\<close>.
\<close>

theorem get_channel_id_empty_category_counterexample:
  "get_channel_id ((RocmEventData ''e'' 0)\<lparr>category := Some [], tid := Some 1\<rparr>)
     = ''unknown_thread_1'' \<and>
   spec_channel_key ((RocmEventData ''e'' 0)\<lparr>category := Some [], tid := Some 1\<rparr>)
     = ''_thread_1'' \<and>
   get_channel_id ((RocmEventData ''e'' 0)\<lparr>category := Some [], tid := Some 1\<rparr>)
     \<noteq> spec_channel_key ((RocmEventData ''e'' 0)\<lparr>category := Some [], tid := Some 1\<rparr>)"
  by (simp add: get_channel_id_def spec_channel_key_def RocmEventData_def or_str_def
      str_int_def str_nat_digit digit_char_def)

text \<open>
  Claim C4, amended: the channel key is a total function of the event. With \<open>cat\<close>
  the category, or \<open>unknown\<close> when the category is absent or empty, the key is
  \<open>cat_thread_tid\<close> when a thread id is present, else \<open>cat_queue_qid\<close> when a queue id
  is present, else \<open>cat_stream_sid\<close> when a stream id is present, else
  \<open>cat_default_p\<close> with \<open>p\<close> the process id or 0.
\<close>

theorem get_channel_id_priority:
  "get_channel_id event =
     (if category event = None \<or> category event = Some [] then ''unknown''
      else the (category event)) @
     (if tid event \<noteq> None then ''_thread_'' @ str_int (the (tid event))
      else if queue_id event \<noteq> None then ''_queue_'' @ str_int (the (queue_id event))
      else if stream_id event \<noteq> None then ''_stream_'' @ str_int (the (stream_id event))
      else ''_default_'' @
        str_int (if pid event = None \<or> pid event = Some 0 then 0 else the (pid event)))"
  by (auto simp: get_channel_id_def or_str_def or_int_def Let_def split: option.splits)

theorem get_channel_id_priority_witness:
  "get_channel_id ((RocmEventData ''k'' 5)
      \<lparr>category := Some ''KERNEL_DISPATCH'', queue_id := Some 12, stream_id := Some 3\<rparr>)
     = ''KERNEL_DISPATCH_queue_12''"
  using get_channel_id_priority
    [of "(RocmEventData ''k'' 5)
      \<lparr>category := Some ''KERNEL_DISPATCH'', queue_id := Some 12, stream_id := Some 3\<rparr>"]
  by (simp add: RocmEventData_def str_int_def str_nat.simps [of 12] str_nat_digit digit_char_def)

section \<open>Properties of the record loader\<close>

text \<open>
  What one query contributes to the event list: nothing when it failed, else the start
  and end event of each row, in row order.
\<close>

definition family_events ::
  "('row \<Rightarrow> event_data) \<Rightarrow> ('row \<Rightarrow> event_data) \<Rightarrow> sqlite3_error + 'row list \<Rightarrow> event_data list" where
  "family_events start_of end_of q =
     (case q of Inl e \<Rightarrow> [] | Inr rows \<Rightarrow> concat (map (\<lambda>row. [start_of row, end_of row]) rows))"

lemma region_rows_loop_concat:
  "region_rows_loop rows evs =
     evs @ concat (map (\<lambda>row. [region_start_event row, region_end_event row]) rows)"
  by (induction rows arbitrary: evs) simp_all

lemma kernel_rows_loop_concat:
  "kernel_rows_loop rows evs =
     evs @ concat (map (\<lambda>row. [kernel_start_event row, kernel_end_event row]) rows)"
  by (induction rows arbitrary: evs) simp_all

lemma copy_rows_loop_concat:
  "copy_rows_loop rows evs =
     evs @ concat (map (\<lambda>row. [copy_start_event row, copy_end_event row]) rows)"
  by (induction rows arbitrary: evs) simp_all

lemma alloc_rows_loop_concat:
  "alloc_rows_loop rows evs =
     evs @ concat (map (\<lambda>row. [alloc_start_event row, alloc_end_event row]) rows)"
  by (induction rows arbitrary: evs) simp_all

lemma load_family_events:
  "load_region_events q1 evs = evs @ family_events region_start_event region_end_event q1"
  "load_kernel_dispatch_events q2 evs = evs @ family_events kernel_start_event kernel_end_event q2"
  "load_memory_copy_events q3 evs = evs @ family_events copy_start_event copy_end_event q3"
  "load_memory_allocation_events q4 evs = evs @ family_events alloc_start_event alloc_end_event q4"
  by (simp_all add: load_region_events_def load_kernel_dispatch_events_def
      load_memory_copy_events_def load_memory_allocation_events_def family_events_def
      region_rows_loop_concat kernel_rows_loop_concat copy_rows_loop_concat
      alloc_rows_loop_concat split: sum.split)

lemma collect_events_families:
  "collect_events d =
     family_events region_start_event region_end_event (q_region d) @
     family_events kernel_start_event kernel_end_event (q_kernel_dispatch d) @
     family_events copy_start_event copy_end_event (q_memory_copy d) @
     family_events alloc_start_event alloc_end_event (q_memory_allocation d)"
  by (simp add: collect_events_def load_family_events)

lemma length_concat_pairs: "length (concat (map (\<lambda>row. [f row, g row]) rows)) = 2 * length rows"
  by (induction rows) simp_all

lemma nth_concat_pairs:
  "i < length rows \<Longrightarrow>
   concat (map (\<lambda>row. [f row, g row]) rows) ! (2 * i) = f (rows ! i) \<and>
   concat (map (\<lambda>row. [f row, g row]) rows) ! (2 * i + 1) = g (rows ! i)"
proof (induction rows arbitrary: i)
  case Nil
  then show ?case by simp
next
  case (Cons row rows)
  then show ?case by (cases i) simp_all
qed

text \<open>
  The \<open>duration\<close> entry of an event's arguments, and the context fields that the
  channel key is computed from.
\<close>

definition duration_arg :: "event_data \<Rightarrow> pyval option" where
  "duration_arg e = (case event_args e of None \<Rightarrow> None | Some kvs \<Rightarrow> map_of kvs ''duration'')"

definition same_context :: "event_data \<Rightarrow> event_data \<Rightarrow> bool" where
  "same_context x y =
     (category x = category y \<and> pid x = pid y \<and> tid x = tid y \<and>
      queue_id x = queue_id y \<and> stream_id x = stream_id y)"

lemma same_context_channel_id:
  "same_context x y \<Longrightarrow> get_channel_id x = get_channel_id y"
  by (simp add: same_context_def get_channel_id_def Let_def split: option.split)

lemma region_pair:
  "same_context (region_start_event r) (region_end_event r)"
  "duration_arg (region_start_event r) = Some (PyInt 0)"
  "duration_arg (region_end_event r) = Some (PyInt (r_end r - r_start r))"
  by (simp_all add: same_context_def duration_arg_def region_start_event_def
      region_end_event_def RocmEventData_def region_common_args_def Let_def)

lemma kernel_pair:
  "same_context (kernel_start_event r) (kernel_end_event r)"
  "duration_arg (kernel_start_event r) = Some (PyInt 0)"
  "duration_arg (kernel_end_event r) = Some (PyInt (k_end r - k_start r))"
  by (simp_all add: same_context_def duration_arg_def kernel_start_event_def
      kernel_end_event_def RocmEventData_def)

lemma copy_pair:
  "same_context (copy_start_event r) (copy_end_event r)"
  "duration_arg (copy_start_event r) = Some (PyInt 0)"
  "duration_arg (copy_end_event r) = Some (PyInt (m_end r - m_start r))"
  by (simp_all add: same_context_def duration_arg_def copy_start_event_def
      copy_end_event_def RocmEventData_def)

lemma alloc_pair:
  "same_context (alloc_start_event r) (alloc_end_event r)"
  "duration_arg (alloc_start_event r) = Some (PyInt 0)"
  "duration_arg (alloc_end_event r) = Some (PyInt (a_end r - a_start r))"
  by (simp_all add: same_context_def duration_arg_def alloc_start_event_def
      alloc_end_event_def RocmEventData_def)

text \<open>
  Claim C6: the loader's result is sorted ascending by timestamp and is a stable
  rearrangement of the events in family order (regions, kernel dispatches, memory copies,
  memory allocations) and row order: for every timestamp, the events carrying it keep
  their relative order. These properties determine the result completely, so two loads of
  the same query results give the same list.
\<close>

theorem load_events_sorted_stable:
  "sorted (map timestamp (load_events d)) \<and>
   mset (load_events d) = mset (collect_events d) \<and>
   (\<forall>t. filter (\<lambda>e. timestamp e = t) (load_events d) =
        filter (\<lambda>e. timestamp e = t) (collect_events d)) \<and>
   (\<forall>ys. sorted (map timestamp ys) \<and> mset ys = mset (collect_events d) \<and>
         (\<forall>t. filter (\<lambda>e. timestamp e = t) ys = filter (\<lambda>e. timestamp e = t) (collect_events d))
         \<longrightarrow> ys = load_events d)"
proof -
  have unique: "ys = load_events d"
    if "sorted (map timestamp ys)" "mset ys = mset (collect_events d)"
       "\<forall>t. filter (\<lambda>e. timestamp e = t) ys = filter (\<lambda>e. timestamp e = t) (collect_events d)"
    for ys
  proof -
    have "sort_key timestamp (collect_events d) = ys"
    proof (rule properties_for_sort_key)
      show "mset ys = mset (collect_events d)" by (rule that(2))
      show "sorted (map timestamp ys)" by (rule that(1))
      fix k assume "k \<in> set ys"
      from that(3)
      have "filter (\<lambda>e. timestamp e = timestamp k) ys =
          filter (\<lambda>e. timestamp e = timestamp k) (collect_events d)"
        by blast
      then show "filter (\<lambda>x. timestamp k = timestamp x) ys =
          filter (\<lambda>x. timestamp k = timestamp x) (collect_events d)"
        by (simp add: eq_commute [of "timestamp k"])
    qed
    then show ?thesis by (simp add: load_events_def)
  qed
  show ?thesis
    using unique by (simp add: load_events_def sort_key_stable) 
qed


text \<open>Example rows: a kernel dispatch spanning 1500 to 3500 and a region spanning 1000 to 1005.\<close>

definition example_kernel_row :: kernel_row where
  "example_kernel_row =
     \<lparr>k_start = 1500, k_end = 3500, k_nid = Some 1, k_pid = Some 1, k_tid = None,
      k_agent_id = Some 2, k_dispatch_id = Some 1, k_queue_id = Some 1, k_stream_id = Some 1,
      k_workgroup_size_x = Some 256, k_workgroup_size_y = Some 1, k_workgroup_size_z = Some 1,
      k_grid_size_x = Some 1024, k_grid_size_y = Some 1, k_grid_size_z = Some 1,
      k_kernel_name = Some ''matrix_multiply'', k_display_name = None\<rparr>"

definition example_region_row :: region_row where
  "example_region_row =
     \<lparr>r_start = 1000, r_end = 1005, r_nid = Some 1, r_pid = Some 1, r_tid = Some 1,
      r_region_name = ''main_region'', r_category = ''unknown'', r_process_name = ''app'',
      r_thread_name = ''main'', r_extdata = None, r_correlation_id = None,
      r_call_stack = None, r_line_info = None\<rparr>"

definition example_database :: database where
  "example_database =
     \<lparr>q_region = Inl Sqlite3Error, q_kernel_dispatch = Inr [example_kernel_row],
      q_memory_copy = Inr [], q_memory_allocation = Inr []\<rparr>"

text \<open>
  Claim C5: for each of the four families, a query that returned rows appends exactly a
  start and an end event per row, in row order, so the family contributes twice as many
  events as it has rows. The two events of a row agree on category, process, thread,
  queue and stream id, hence on the channel key; the start event's \<open>duration\<close> argument
  is 0 and the end event's is \<open>end - start\<close>.
\<close>

theorem each_row_yields_start_end_pair:
  "load_region_events (Inr rs) evs =
     evs @ concat (map (\<lambda>row. [region_start_event row, region_end_event row]) rs) \<and>
   load_kernel_dispatch_events (Inr ks) evs =
     evs @ concat (map (\<lambda>row. [kernel_start_event row, kernel_end_event row]) ks) \<and>
   load_memory_copy_events (Inr ms) evs =
     evs @ concat (map (\<lambda>row. [copy_start_event row, copy_end_event row]) ms) \<and>
   load_memory_allocation_events (Inr as) evs =
     evs @ concat (map (\<lambda>row. [alloc_start_event row, alloc_end_event row]) as) \<and>
   length (load_region_events (Inr rs) []) = 2 * length rs \<and>
   length (load_kernel_dispatch_events (Inr ks) []) = 2 * length ks \<and>
   length (load_memory_copy_events (Inr ms) []) = 2 * length ms \<and>
   length (load_memory_allocation_events (Inr as) []) = 2 * length as \<and>
   same_context (region_start_event r) (region_end_event r) \<and>
   get_channel_id (region_start_event r) = get_channel_id (region_end_event r) \<and>
   duration_arg (region_start_event r) = Some (PyInt 0) \<and>
   duration_arg (region_end_event r) = Some (PyInt (r_end r - r_start r)) \<and>
   same_context (kernel_start_event k) (kernel_end_event k) \<and>
   get_channel_id (kernel_start_event k) = get_channel_id (kernel_end_event k) \<and>
   duration_arg (kernel_start_event k) = Some (PyInt 0) \<and>
   duration_arg (kernel_end_event k) = Some (PyInt (k_end k - k_start k)) \<and>
   same_context (copy_start_event m) (copy_end_event m) \<and>
   get_channel_id (copy_start_event m) = get_channel_id (copy_end_event m) \<and>
   duration_arg (copy_start_event m) = Some (PyInt 0) \<and>
   duration_arg (copy_end_event m) = Some (PyInt (m_end m - m_start m)) \<and>
   same_context (alloc_start_event a) (alloc_end_event a) \<and>
   get_channel_id (alloc_start_event a) = get_channel_id (alloc_end_event a) \<and>
   duration_arg (alloc_start_event a) = Some (PyInt 0) \<and>
   duration_arg (alloc_end_event a) = Some (PyInt (a_end a - a_start a))"
proof -
  have loops:
    "load_region_events (Inr rs) evs =
       evs @ concat (map (\<lambda>row. [region_start_event row, region_end_event row]) rs)"
    "load_kernel_dispatch_events (Inr ks) evs =
       evs @ concat (map (\<lambda>row. [kernel_start_event row, kernel_end_event row]) ks)"
    "load_memory_copy_events (Inr ms) evs =
       evs @ concat (map (\<lambda>row. [copy_start_event row, copy_end_event row]) ms)"
    "load_memory_allocation_events (Inr as) evs =
       evs @ concat (map (\<lambda>row. [alloc_start_event row, alloc_end_event row]) as)"
    by (simp_all add: load_family_events family_events_def)
  have counts:
    "length (load_region_events (Inr rs) []) = 2 * length rs"
    "length (load_kernel_dispatch_events (Inr ks) []) = 2 * length ks"
    "length (load_memory_copy_events (Inr ms) []) = 2 * length ms"
    "length (load_memory_allocation_events (Inr as) []) = 2 * length as"
    by (simp_all add: load_family_events family_events_def length_concat_pairs)
  note pairs = region_pair [of r] kernel_pair [of k] copy_pair [of m] alloc_pair [of a]
  note keys = pairs(1,4,7,10) [THEN same_context_channel_id]
  show ?thesis
    by (intro conjI loops counts pairs keys)
qed

theorem each_row_yields_start_end_pair_witness:
  "load_kernel_dispatch_events (Inr [example_kernel_row]) [] =
     [kernel_start_event example_kernel_row, kernel_end_event example_kernel_row] \<and>
   length (load_kernel_dispatch_events (Inr [example_kernel_row]) []) = 2 \<and>
   get_channel_id (kernel_end_event example_kernel_row) = ''KERNEL_DISPATCH_queue_1'' \<and>
   duration_arg (kernel_start_event example_kernel_row) = Some (PyInt 0) \<and>
   duration_arg (kernel_end_event example_kernel_row) = Some (PyInt 2000)"
proof -
  have "get_channel_id (kernel_end_event example_kernel_row) = ''KERNEL_DISPATCH_queue_1''"
    by (simp add: get_channel_id_def kernel_end_event_def example_kernel_row_def
        RocmEventData_def or_str_def str_int_def str_nat_digit digit_char_def)
  moreover have "k_end example_kernel_row - k_start example_kernel_row = 2000"
    by (simp add: example_kernel_row_def)
  ultimately show ?thesis
    using each_row_yields_start_end_pair
      [where ks = "[example_kernel_row]" and evs = "[]" and k = example_kernel_row]
    by simp
qed

text \<open>
  Claim C7: a loader whose query raised \<open>sqlite3.Error\<close> leaves the event list as it
  was, so that family contributes no event at all, while every other family contributes
  the events of all its rows; the loaded list is the one of a database where the failed
  family has no rows, and the loader returns a list in every case.
\<close>

theorem failed_query_contributes_no_events:
  "load_region_events (Inl err) evs = evs \<and>
   load_kernel_dispatch_events (Inl err) evs = evs \<and>
   load_memory_copy_events (Inl err) evs = evs \<and>
   load_memory_allocation_events (Inl err) evs = evs \<and>
   collect_events d =
     family_events region_start_event region_end_event (q_region d) @
     family_events kernel_start_event kernel_end_event (q_kernel_dispatch d) @
     family_events copy_start_event copy_end_event (q_memory_copy d) @
     family_events alloc_start_event alloc_end_event (q_memory_allocation d) \<and>
   family_events start_of end_of (Inl err) = [] \<and>
   family_events start_of end_of (Inr rows) = concat (map (\<lambda>row. [start_of row, end_of row]) rows) \<and>
   (q_region d = Inl err \<longrightarrow> load_events d = load_events (d\<lparr>q_region := Inr []\<rparr>)) \<and>
   (q_kernel_dispatch d = Inl err \<longrightarrow>
      load_events d = load_events (d\<lparr>q_kernel_dispatch := Inr []\<rparr>)) \<and>
   (q_memory_copy d = Inl err \<longrightarrow> load_events d = load_events (d\<lparr>q_memory_copy := Inr []\<rparr>)) \<and>
   (q_memory_allocation d = Inl err \<longrightarrow>
      load_events d = load_events (d\<lparr>q_memory_allocation := Inr []\<rparr>))"
proof -
  have caught:
    "load_region_events (Inl err) evs = evs"
    "load_kernel_dispatch_events (Inl err) evs = evs"
    "load_memory_copy_events (Inl err) evs = evs"
    "load_memory_allocation_events (Inl err) evs = evs"
    by (simp_all add: load_region_events_def load_kernel_dispatch_events_def
        load_memory_copy_events_def load_memory_allocation_events_def)
  have fam:
    "family_events start_of end_of (Inl err) = []"
    "family_events start_of end_of (Inr rows) =
       concat (map (\<lambda>row. [start_of row, end_of row]) rows)"
    by (simp_all add: family_events_def)
  have as_empty:
    "q_region d = Inl err \<longrightarrow> load_events d = load_events (d\<lparr>q_region := Inr []\<rparr>)"
    "q_kernel_dispatch d = Inl err \<longrightarrow>
       load_events d = load_events (d\<lparr>q_kernel_dispatch := Inr []\<rparr>)"
    "q_memory_copy d = Inl err \<longrightarrow> load_events d = load_events (d\<lparr>q_memory_copy := Inr []\<rparr>)"
    "q_memory_allocation d = Inl err \<longrightarrow>
       load_events d = load_events (d\<lparr>q_memory_allocation := Inr []\<rparr>)"
    by (simp_all add: load_events_def collect_events_families family_events_def)
  show ?thesis
    by (intro conjI caught fam as_empty collect_events_families)
qed

theorem failed_query_contributes_no_events_witness:
  "q_region example_database = Inl Sqlite3Error \<and>
   load_events example_database = load_events (example_database\<lparr>q_region := Inr []\<rparr>) \<and>
   load_events example_database =
     [kernel_start_event example_kernel_row, kernel_end_event example_kernel_row]"
proof -
  have failed: "q_region example_database = Inl Sqlite3Error"
    by (simp add: example_database_def)
  have "timestamp (kernel_start_event example_kernel_row) = 1500"
       "timestamp (kernel_end_event example_kernel_row) = 3500"
    by (simp_all add: kernel_start_event_def kernel_end_event_def example_kernel_row_def
        RocmEventData_def)
  then have "load_events (example_database\<lparr>q_region := Inr []\<rparr>) =
      [kernel_start_event example_kernel_row, kernel_end_event example_kernel_row]"
    by (simp add: load_events_def collect_events_families family_events_def example_database_def)
  with failed show ?thesis
    using failed_query_contributes_no_events
      [where err = Sqlite3Error and d = example_database and start_of = region_start_event
         and end_of = region_end_event and rows = "[]"]
    by simp
qed

theorem load_events_sorted_stable_witness:
  "sorted (map timestamp (load_events (example_database\<lparr>q_region := Inr [example_region_row]\<rparr>))) \<and>
   map timestamp (load_events (example_database\<lparr>q_region := Inr [example_region_row]\<rparr>))
     = [1000, 1005, 1500, 3500]"
proof -
  have "map timestamp (collect_events (example_database\<lparr>q_region := Inr [example_region_row]\<rparr>))
      = [1000, 1005, 1500, 3500]"
    by (simp add: collect_events_families family_events_def example_database_def
        kernel_start_event_def kernel_end_event_def example_kernel_row_def
        region_start_event_def region_end_event_def example_region_row_def RocmEventData_def)
  moreover have "sorted [1000, 1005, 1500, 3500::int]" by simp
  ultimately have "sorted (map timestamp (collect_events (example_database\<lparr>q_region := Inr [example_region_row]\<rparr>)))"
    by simp
  then have "collect_events (example_database\<lparr>q_region := Inr [example_region_row]\<rparr>) =
     load_events (example_database\<lparr>q_region := Inr [example_region_row]\<rparr>)"
    using load_events_sorted_stable [of "example_database\<lparr>q_region := Inr [example_region_row]\<rparr>"]
    by blast
  with \<open>map timestamp (collect_events _) = _\<close> show ?thesis by simp
qed

section \<open>Properties of the event class resolution\<close>

lemma lower_ascii_examples:
  "lower ''KERNEL_DISPATCH'' = ''kernel_dispatch''"
  "lower ''Memory_Copy'' = ''memory_copy''"
  "lower ''unknown'' = ''unknown''"
  by (simp_all add: lower_def lower_char_def)

text \<open>
  Claim C8, as stated, fails: an event named \<open>main_region_start\<close> whose category is
  absent or empty is given the generic class, although its name contains \<open>region\<close>.
  The name is looked at only when the category is non-empty.
\<close>

theorem event_class_name_counterexample:
  "str_contains ''region'' ''main_region_start'' \<and>
   get_event_class_name_by_category (RocmEventData ''main_region_start'' 1000) = ''generic_event'' \<and>
   get_event_class_name_by_category
     ((RocmEventData ''main_region_start'' 1000)\<lparr>category := Some []\<rparr>) = ''generic_event'' \<and>
   spec_schema_name (RocmEventData ''main_region_start'' 1000) = ''region_event'' \<and>
   spec_schema_name ((RocmEventData ''main_region_start'' 1000)\<lparr>category := Some []\<rparr>)
     = ''region_event''"
  by (simp add: get_event_class_name_by_category_def spec_schema_name_def RocmEventData_def
      lower_def)

lemma map_of_create_event_classes:
  "map_of create_event_classes ''region_event'' =
     Some \<lparr>ec_name = ''region_event'', payload_fc = create_region_field_class\<rparr>"
  "map_of create_event_classes ''kernel_dispatch_event'' =
     Some \<lparr>ec_name = ''kernel_dispatch_event'', payload_fc = kernel_payload_fc\<rparr>"
  "map_of create_event_classes ''memory_copy_event'' =
     Some \<lparr>ec_name = ''memory_copy_event'', payload_fc = memory_payload_fc\<rparr>"
  "map_of create_event_classes ''memory_allocation_event'' =
     Some \<lparr>ec_name = ''memory_allocation_event'', payload_fc = allocation_payload_fc\<rparr>"
  "map_of create_event_classes ''generic_event'' =
     Some \<lparr>ec_name = ''generic_event'', payload_fc = generic_payload_fc\<rparr>"
  by (simp_all add: create_event_classes_def)

lemma event_class_name_closed:
  "get_event_class_name_by_category e \<in>
     {''region_event'', ''kernel_dispatch_event'', ''memory_copy_event'',
      ''memory_allocation_event'', ''generic_event''}"
  by (simp add: get_event_class_name_by_category_def Let_def split: option.split)

lemma lookup_registered:
  "\<exists>ec. lookup_event_class create_event_classes e = Some ec \<and>
        ec_name ec = get_event_class_name_by_category e"
  using event_class_name_closed [of e]
  by (auto simp: lookup_event_class_def map_of_create_event_classes)

text \<open>
  Claim C8, amended: the class name is a total function of category and name. An absent
  or empty category gives the generic class whatever the name. Otherwise the lower-cased
  category decides: \<open>hip_runtime_api_ext\<close> and \<open>hip_compiler_api_ext\<close> give the region
  class, \<open>kernel_dispatch\<close>, \<open>memory_copy\<close> and \<open>memory_allocation\<close> their own
  classes, and any other category gives the region class when the name contains
  \<open>region\<close> and the generic class when it does not. With the classes the component
  registers, the lookup always finds the class of that name; with any other table, a
  missing class falls back to the one registered as \<open>generic_event\<close>.
\<close>

theorem event_class_resolution:
  "(category e = None \<or> category e = Some [] \<longrightarrow>
      get_event_class_name_by_category e = ''generic_event'') \<and>
   (category e = Some c \<and> c \<noteq> [] \<longrightarrow>
      get_event_class_name_by_category e =
        (if lower c = ''hip_runtime_api_ext'' \<or> lower c = ''hip_compiler_api_ext''
           then ''region_event''
         else if lower c = ''kernel_dispatch'' then ''kernel_dispatch_event''
         else if lower c = ''memory_copy'' then ''memory_copy_event''
         else if lower c = ''memory_allocation'' then ''memory_allocation_event''
         else if str_contains ''region'' (name e) then ''region_event''
         else ''generic_event'')) \<and>
   (\<exists>ec. lookup_event_class create_event_classes e = Some ec \<and>
         ec_name ec = get_event_class_name_by_category e) \<and>
   (map_of ecs (get_event_class_name_by_category e) = Some ec' \<longrightarrow>
      lookup_event_class ecs e = Some ec') \<and>
   (map_of ecs (get_event_class_name_by_category e) = None \<longrightarrow>
      lookup_event_class ecs e = map_of ecs ''generic_event'')"
  using lookup_registered [of e]
  by (auto simp: get_event_class_name_by_category_def lookup_event_class_def Let_def)

theorem event_class_resolution_witness:
  "get_event_class_name_by_category
     ((RocmEventData ''kernel_dispatch_start'' 1500)\<lparr>category := Some ''Kernel_Dispatch''\<rparr>)
     = ''kernel_dispatch_event'' \<and>
   get_event_class_name_by_category
     ((RocmEventData ''main_region_start'' 1000)\<lparr>category := Some ''unknown''\<rparr>)
     = ''region_event'' \<and>
   get_event_class_name_by_category (RocmEventData ''main_region_start'' 1000)
     = ''generic_event'' \<and>
   lookup_event_class [] (RocmEventData ''main_region_start'' 1000) = None"
proof -
  have "lower ''Kernel_Dispatch'' = ''kernel_dispatch''" "lower ''unknown'' = ''unknown''"
    by (simp_all add: lower_def lower_char_def)
  then show ?thesis
    using event_class_resolution
      [where e = "(RocmEventData ''kernel_dispatch_start'' 1500)\<lparr>category := Some ''Kernel_Dispatch''\<rparr>"
         and c = "''Kernel_Dispatch''" and ecs = "[]"]
      event_class_resolution
      [where e = "(RocmEventData ''main_region_start'' 1000)\<lparr>category := Some ''unknown''\<rparr>"
         and c = "''unknown''" and ecs = "[]"]
      event_class_resolution [where e = "RocmEventData ''main_region_start'' 1000" and ecs = "[]"]
    by (simp add: RocmEventData_def)
qed

section \<open>Properties of the source component\<close>







section \<open>Properties of the stream multiplexer\<close>

subsection \<open>Streams are created once per channel key\<close>

lemma get_or_create_stream_known:
  "map_of (streams it) (get_channel_id e) = Some s \<Longrightarrow> get_or_create_stream it e = (s, it)"
  by (simp add: get_or_create_stream_def)

lemma get_or_create_stream_maps:
  "map_of (streams (snd (get_or_create_stream it e))) (get_channel_id e)
     = Some (fst (get_or_create_stream it e))"
  by (simp add: get_or_create_stream_def Let_def update_conv' split: option.split)

lemma get_or_create_stream_keeps:
  "map_of (streams it) k = Some s \<Longrightarrow>
   map_of (streams (snd (get_or_create_stream it e))) k = Some s"
  by (auto simp: get_or_create_stream_def Let_def update_conv' split: option.split)

text \<open>One call of \<open>__next__\<close>, keeping only the iterator.\<close>

definition step :: "iter \<Rightarrow> iter" where
  "step it = snd (next_msg it)"

text \<open>
  A property of the iterator that survives a stream lookup and does not depend on the
  cursor, the state or the current stream survives a call of \<open>__next__\<close>.
\<close>

lemma next_msg_preserves:
  assumes goc: "\<And>it e. P it \<Longrightarrow> P (snd (get_or_create_stream it e))"
    and idx: "\<And>it i. P it \<Longrightarrow> P (it\<lparr>event_index := i\<rparr>)"
    and st: "\<And>it x. P it \<Longrightarrow> P (it\<lparr>state := x\<rparr>)"
    and cur: "\<And>it c. P it \<Longrightarrow> P (it\<lparr>current_stream := c\<rparr>)"
  shows "P it \<Longrightarrow> P (snd (next_msg it))"
proof (induction it rule: next_msg.induct)
  case (1 it)
  have adv: "P (snd (advance it))"
    unfolding advance_def by (intro goc idx "1.prems")
  show ?case
  proof (cases "state it")
    case StreamBeginning
    show ?thesis
    proof (cases "current_events it = []")
      case True
      with StreamBeginning show ?thesis
        by (simp add: next_msg_empty st "1.prems")
    next
      case False
      have "P (snd (open_first it))"
        unfolding open_first_def by (intro goc "1.prems")
      then have "P ((snd (open_first it))\<lparr>current_stream := Some (fst (open_first it))\<rparr>
                     \<lparr>state := Events\<rparr>)"
        by (intro st cur)
      with StreamBeginning False show ?thesis
        by (simp add: next_msg_begin)
    qed
  next
    case Events
    show ?thesis
    proof (cases "event_index it < length (current_events it)")
      case inside: True
      show ?thesis
      proof (cases "Some (fst (advance it)) = current_stream it")
        case False
        with Events inside show ?thesis
          by (simp add: next_msg_switch cur adv)
      next
        case same: True
        show ?thesis
        proof (cases "lookup_event_class (event_classes it) (cursor_event it)")
          case None
          have "P (snd (next_msg (snd (advance it))))"
            using "1.IH"(1) [of "cursor_event it" "advance it"] Events inside same None adv
            by (simp add: cursor_event_def advance_def get_or_create_stream_frame)
          then show ?thesis
            by (simp add: next_msg_skip [OF Events inside same None])
        next
          case (Some ec)
          with Events inside same show ?thesis
            by (simp add: next_msg_emit adv)
        qed
      qed
    next
      case False
      have "P (snd (next_msg (it\<lparr>state := StreamEnd\<rparr>)))"
        using "1.IH"(2) Events False st [OF "1.prems"] by simp
      with Events False show ?thesis
        by (simp add: next_msg_exhausted)
    qed
  next
    case StreamEnd
    have "P (it\<lparr>current_stream := None\<rparr>\<lparr>state := Done\<rparr>)"
      by (intro st cur "1.prems")
    with StreamEnd show ?thesis
      by (cases "current_stream it") (simp_all add: next_msg_end next_msg_end_none st "1.prems")
  next
    case Done
    with "1.prems" show ?thesis by (simp add: next_msg_done)
  qed
qed

lemma step_keeps_stream:
  "map_of (streams it) k = Some s \<Longrightarrow> map_of (streams (step it)) k = Some s"
  unfolding step_def
  by (rule next_msg_preserves [where P = "\<lambda>it. map_of (streams it) k = Some s"])
     (simp_all add: get_or_create_stream_keeps)

lemma steps_keep_stream:
  "map_of (streams it) k = Some s \<Longrightarrow> map_of (streams ((step ^^ n) it)) k = Some s"
  by (induction n) (simp_all add: step_keeps_stream)

text \<open>
  Claim C10: once the stream of an event's channel key has been fetched, any number of
  later calls of \<open>__next__\<close> leave it in place: fetching the stream of an event with the
  same key returns that same stream and changes nothing, so no second stream is created
  for the key. When the cursor reaches an event whose key already has a stream that is
  not the current one, the stream-beginning message is sent on that existing stream and
  no stream is created.
\<close>

theorem stream_created_once_per_key:
  "(get_channel_id e1 = get_channel_id e2 \<longrightarrow>
      get_or_create_stream ((step ^^ n) (snd (get_or_create_stream it e1))) e2
        = (fst (get_or_create_stream it e1), (step ^^ n) (snd (get_or_create_stream it e1)))) \<and>
   (state it = Events \<and> event_index it < length (current_events it) \<and>
    map_of (streams it) (get_channel_id (current_events it ! event_index it)) = Some s \<and>
    current_stream it \<noteq> Some s \<longrightarrow>
      fst (next_msg it) = Some (StreamBeginningMsg s) \<and>
      streams (snd (next_msg it)) = streams it \<and>
      trace_streams (snd (next_msg it)) = trace_streams it)"
proof (intro conjI impI)
  assume same: "get_channel_id e1 = get_channel_id e2"
  have "map_of (streams ((step ^^ n) (snd (get_or_create_stream it e1)))) (get_channel_id e2)
      = Some (fst (get_or_create_stream it e1))"
    using get_or_create_stream_maps [of it e1] same by (simp add: steps_keep_stream)
  then show "get_or_create_stream ((step ^^ n) (snd (get_or_create_stream it e1))) e2
      = (fst (get_or_create_stream it e1), (step ^^ n) (snd (get_or_create_stream it e1)))"
    by (rule get_or_create_stream_known)
next
  assume a: "state it = Events \<and> event_index it < length (current_events it) \<and>
    map_of (streams it) (get_channel_id (current_events it ! event_index it)) = Some s \<and>
    current_stream it \<noteq> Some s"
  then have adv: "advance it = (s, it\<lparr>event_index := event_index it + 1\<rparr>)"
    by (simp add: advance_def cursor_event_def get_or_create_stream_known)
  with a have "next_msg it = (Some (StreamBeginningMsg s),
      it\<lparr>event_index := event_index it + 1, current_stream := Some s\<rparr>)"
    using next_msg_switch [of it] by auto
  then show "fst (next_msg it) = Some (StreamBeginningMsg s)"
    "streams (snd (next_msg it)) = streams it"
    "trace_streams (snd (next_msg it)) = trace_streams it"
    by simp_all
qed


subsection \<open>Framing of the message sequence\<close>

text \<open>A message without its event class and payload.\<close>

datatype frame = Begin stream | Event stream int | End stream

fun frame_of :: "message \<Rightarrow> frame" where
  "frame_of (StreamBeginningMsg s) = Begin s"
| "frame_of (EventMsg ec s ts p) = Event s ts"
| "frame_of (StreamEndMsg s) = End s"



text \<open>
  Example inputs: five kernel events on threads 1, 2, 2, 1, 1, and a database with two
  regions, on threads 1 and 2.
\<close>

definition example_event :: "string \<Rightarrow> int \<Rightarrow> int \<Rightarrow> event_data" where
  "example_event n ts t =
     (RocmEventData n ts)
       \<lparr>category := Some ''KERNEL_DISPATCH'', tid := Some t,
        event_args := Some [(''event_type'', PyStr n), (''dispatch_id'', PyNone),
                            (''priority'', PyInt 3), (''duration'', PyInt 0)]\<rparr>"

definition example_events :: "event_data list" where
  "example_events =
     [example_event ''a'' 1 1, example_event ''b'' 2 2, example_event ''c'' 3 2,
      example_event ''d'' 4 1, example_event ''e'' 5 1]"

definition two_thread_database :: database where
  "two_thread_database =
     \<lparr>q_region = Inr [example_region_row,
                      example_region_row\<lparr>r_start := 2000, r_end := 2005, r_tid := Some 2\<rparr>],
      q_kernel_dispatch = Inr [], q_memory_copy = Inr [], q_memory_allocation = Inr []\<rparr>"



















subsection \<open>Payload population\<close>

lemma set_field_keys: "map fst (set_field kv p) = map fst p"
  by (auto simp: set_field_def update_keys map_of_eq_None_iff)

lemma fold_set_field_keys: "map fst (fold set_field kvs p) = map fst p"
  by (induction kvs arbitrary: p) (simp_all add: set_field_keys)

lemma set_event_fields_keys: "map fst (set_event_fields args p) = map fst p"
  by (simp add: set_event_fields_def fold_set_field_keys split: option.split)

lemma new_payload_keys: "map fst (new_payload ec) = map fst (payload_fc ec)"
  by (simp add: new_payload_def case_prod_beta comp_def)

lemma map_of_new_payload:
  "map_of (new_payload ec) k = (if k \<in> fst ` set (payload_fc ec) then Some None else None)"
proof -
  have "map_of (map (\<lambda>(k, fc). (k, None :: pyval option)) fcs) k =
      (if k \<in> fst ` set fcs then Some None else None)" for fcs :: "(string \<times> field_class) list"
    by (induction fcs) auto
  then show ?thesis by (simp add: new_payload_def)
qed

lemma map_of_keys_cong:
  "map fst p = map fst q \<Longrightarrow> (map_of p k = None) = (map_of q k = None)"
  by (metis map_of_eq_None_iff set_map)

lemma map_of_set_field:
  "map_of (set_field kv p) k =
     (if k = fst kv \<and> map_of p k \<noteq> None \<and> snd kv \<noteq> PyNone then Some (Some (snd kv))
      else map_of p k)"
  by (auto simp: set_field_def update_conv')

lemma fold_set_field_provenance:
  "map_of (fold set_field kvs p) k = Some (Some v) \<Longrightarrow>
   map_of p k = Some (Some v) \<or> ((k, v) \<in> set kvs \<and> v \<noteq> PyNone \<and> map_of p k \<noteq> None)"
proof (induction kvs arbitrary: p)
  case Nil
  then show ?case by simp
next
  case (Cons kv kvs)
  from Cons.prems have "map_of (fold set_field kvs (set_field kv p)) k = Some (Some v)"
    by simp
  from Cons.IH [OF this]
  consider "map_of (set_field kv p) k = Some (Some v)"
    | "(k, v) \<in> set kvs" "v \<noteq> PyNone" "map_of (set_field kv p) k \<noteq> None"
    by blast
  then show ?case
  proof cases
    case 1
    then show ?thesis
      by (cases kv) (auto simp: map_of_set_field split: if_splits)
  next
    case 2
    moreover have "map_of p k \<noteq> None"
      using 2(3) map_of_keys_cong [OF set_field_keys, of kv p k] by simp
    ultimately show ?thesis by simp
  qed
qed

lemma fold_set_field_untouched:
  "(\<forall>v. (k, v) \<in> set kvs \<longrightarrow> v = PyNone) \<Longrightarrow> map_of (fold set_field kvs p) k = map_of p k"
proof (induction kvs arbitrary: p)
  case Nil
  then show ?case by simp
next
  case (Cons kv kvs)
  then have "map_of (fold set_field kvs (set_field kv p)) k = map_of (set_field kv p) k"
    by simp
  moreover have "map_of (set_field kv p) k = map_of p k"
    using Cons.prems by (cases kv) (auto simp: map_of_set_field)
  ultimately show ?case by simp
qed

lemma fold_set_field_assigned:
  "distinct (map fst kvs) \<Longrightarrow> (k, v) \<in> set kvs \<Longrightarrow> v \<noteq> PyNone \<Longrightarrow> map_of p k \<noteq> None \<Longrightarrow>
   map_of (fold set_field kvs p) k = Some (Some v)"
proof (induction kvs arbitrary: p)
  case Nil
  then show ?case by simp
next
  case (Cons kv kvs)
  show ?case
  proof (cases "kv = (k, v)")
    case True
    with Cons.prems have "\<forall>w. (k, w) \<in> set kvs \<longrightarrow> w = PyNone"
      by (auto simp: image_iff)
    then have "map_of (fold set_field kvs (set_field kv p)) k = map_of (set_field kv p) k"
      by (rule fold_set_field_untouched)
    with True Cons.prems show ?thesis
      by (simp add: map_of_set_field)
  next
    case False
    with Cons.prems have in_rest: "(k, v) \<in> set kvs" and d: "distinct (map fst kvs)"
      by auto
    have "map_of (set_field kv p) k \<noteq> None"
      using Cons.prems(4) map_of_keys_cong [OF set_field_keys, of kv p k] by simp
    from Cons.IH [OF d in_rest Cons.prems(3) this] show ?thesis by simp
  qed
qed

lemma next_msg_event_origin:
  "next_msg it = (Some (EventMsg ec s ts p), it') \<Longrightarrow>
   \<exists>e \<in> set (current_events it). ts = timestamp e \<and>
      lookup_event_class (event_classes it) e = Some ec \<and>
      p = set_event_fields (event_args e) (new_payload ec)"
proof (induction it arbitrary: it' rule: next_msg.induct)
  case (1 it)
  show ?case
  proof (cases "state it")
    case StreamBeginning
    with "1.prems" show ?thesis
      by (cases "current_events it = []") (simp_all add: next_msg_begin next_msg_empty)
  next
    case Events
    show ?thesis
    proof (cases "event_index it < length (current_events it)")
      case inside: True
      then have mem: "cursor_event it \<in> set (current_events it)"
        by (simp add: cursor_event_def)
      show ?thesis
      proof (cases "Some (fst (advance it)) = current_stream it")
        case False
        with Events inside "1.prems" show ?thesis
          by (simp add: next_msg_switch)
      next
        case same: True
        show ?thesis
        proof (cases "lookup_event_class (event_classes it) (cursor_event it)")
          case None
          have "next_msg (snd (advance it)) = (Some (EventMsg ec s ts p), it')"
            using next_msg_skip [OF Events inside same None] "1.prems" by simp
          then have "\<exists>e \<in> set (current_events (snd (advance it))). ts = timestamp e \<and>
              lookup_event_class (event_classes (snd (advance it))) e = Some ec \<and>
              p = set_event_fields (event_args e) (new_payload ec)"
            using "1.IH"(1) [of "cursor_event it" "advance it" it'] Events inside same None
            by (simp add: cursor_event_def advance_def get_or_create_stream_frame)
          then show ?thesis by (simp add: advance_frame)
        next
          case (Some ec')
          with Events inside same "1.prems" mem show ?thesis
            by (auto simp: next_msg_emit)
        qed
      qed
    next
      case False
      with Events "1.prems"
      have "next_msg (it\<lparr>state := StreamEnd\<rparr>) = (Some (EventMsg ec s ts p), it')"
        by (simp add: next_msg_exhausted)
      then show ?thesis
        by (cases "current_stream it") (simp_all add: next_msg_end next_msg_end_none)
    qed
  next
    case StreamEnd
    with "1.prems" show ?thesis
      by (cases "current_stream it") (simp_all add: next_msg_end next_msg_end_none)
  next
    case Done
    with "1.prems" show ?thesis by (simp add: next_msg_done)
  qed
qed

lemma next_msg_events_fixed:
  "current_events (snd (next_msg it)) = current_events it \<and>
   event_classes (snd (next_msg it)) = event_classes it"
  by (rule next_msg_preserves
      [where P = "\<lambda>i. current_events i = current_events it \<and> event_classes i = event_classes it"])
     (simp_all add: get_or_create_stream_frame)

lemma event_messages_origin:
  "EventMsg ec s ts p \<in> set (messages it) \<Longrightarrow>
   \<exists>e \<in> set (current_events it). ts = timestamp e \<and>
      lookup_event_class (event_classes it) e = Some ec \<and>
      p = set_event_fields (event_args e) (new_payload ec)"
proof (induction "iter_measure it" arbitrary: it rule: less_induct)
  case less
  obtain mo it' where nm: "next_msg it = (mo, it')" by (cases "next_msg it")
  show ?case
  proof (cases mo)
    case None
    with nm less.prems show ?thesis by (simp add: messages.simps [of it])
  next
    case (Some m)
    with nm have ms: "messages it = m # messages it'"
      by (simp add: messages.simps [of it])
    have fixed: "current_events it' = current_events it" "event_classes it' = event_classes it"
      using next_msg_events_fixed [of it] nm by simp_all
    from less.prems ms consider "m = EventMsg ec s ts p" | "EventMsg ec s ts p \<in> set (messages it')"
      by auto
    then show ?thesis
    proof cases
      case 1
      with nm Some show ?thesis by (auto dest: next_msg_event_origin)
    next
      case 2
      have "iter_measure it' < iter_measure it"
        using nm Some by (auto intro: next_msg_measure)
      from less.hyps [OF this 2] fixed show ?thesis by simp
    qed
  qed
qed

text \<open>
  Claim C9: every event message of the sequence comes from an event of the list and
  carries the payload of its event class, with exactly the members the class declares. A
  member holds a value only if the event's arguments have that key with that value and
  the value is not \<open>None\<close>; a member whose key is missing from the arguments, or present
  only with \<open>None\<close>, is left unassigned; a key of the arguments (a dictionary, so its
  keys are distinct) that the class declares and whose value is not \<open>None\<close> is copied.
  Keys the class does not declare are dropped.
\<close>

theorem payload_within_schema:
  "EventMsg ec s ts p \<in> set (messages it) \<Longrightarrow>
   map fst p = map fst (payload_fc ec) \<and>
   (\<exists>e \<in> set (current_events it).
      ts = timestamp e \<and>
      lookup_event_class (event_classes it) e = Some ec \<and>
      p = set_event_fields (event_args e) (new_payload ec) \<and>
      (\<forall>k v. map_of p k = Some (Some v) \<longrightarrow>
         v \<noteq> PyNone \<and> k \<in> fst ` set (payload_fc ec) \<and>
         (\<exists>kvs. event_args e = Some kvs \<and> (k, v) \<in> set kvs)) \<and>
      (\<forall>k. k \<in> fst ` set (payload_fc ec) \<and>
           (\<forall>kvs v. event_args e = Some kvs \<and> (k, v) \<in> set kvs \<longrightarrow> v = PyNone) \<longrightarrow>
         map_of p k = Some None) \<and>
      (\<forall>k v kvs. event_args e = Some kvs \<and> distinct (map fst kvs) \<and> (k, v) \<in> set kvs \<and>
           v \<noteq> PyNone \<and> k \<in> fst ` set (payload_fc ec) \<longrightarrow>
         map_of p k = Some (Some v)))"
proof -
  assume "EventMsg ec s ts p \<in> set (messages it)"
  from event_messages_origin [OF this]
  obtain e where e: "e \<in> set (current_events it)" "ts = timestamp e"
      "lookup_event_class (event_classes it) e = Some ec"
      and p: "p = set_event_fields (event_args e) (new_payload ec)"
    by blast
  have keys: "map fst p = map fst (payload_fc ec)"
    by (simp add: p set_event_fields_keys new_payload_keys)
  have copied: "v \<noteq> PyNone \<and> k \<in> fst ` set (payload_fc ec) \<and>
      (\<exists>kvs. event_args e = Some kvs \<and> (k, v) \<in> set kvs)"
    if "map_of p k = Some (Some v)" for k v
  proof (cases "event_args e")
    case None
    with that show ?thesis
      by (simp add: p set_event_fields_def map_of_new_payload split: if_splits)
  next
    case (Some kvs)
    with that have "map_of (fold set_field kvs (new_payload ec)) k = Some (Some v)"
      by (simp add: p set_event_fields_def split: if_splits)
    from fold_set_field_provenance [OF this] Some show ?thesis
      by (auto simp: map_of_new_payload split: if_splits)
  qed
  have skipped: "map_of p k = Some None"
    if "k \<in> fst ` set (payload_fc ec)"
       "\<forall>kvs v. event_args e = Some kvs \<and> (k, v) \<in> set kvs \<longrightarrow> v = PyNone" for k
  proof (cases "event_args e")
    case None
    with that show ?thesis by (simp add: p set_event_fields_def map_of_new_payload)
  next
    case (Some kvs)
    with that have "\<forall>v. (k, v) \<in> set kvs \<longrightarrow> v = PyNone" by simp
    then have "map_of (fold set_field kvs (new_payload ec)) k = map_of (new_payload ec) k"
      by (rule fold_set_field_untouched)
    with Some that(1) show ?thesis
      by (simp add: p set_event_fields_def map_of_new_payload)
  qed
  have assigned: "map_of p k = Some (Some v)"
    if "event_args e = Some kvs" "distinct (map fst kvs)" "(k, v) \<in> set kvs" "v \<noteq> PyNone"
       "k \<in> fst ` set (payload_fc ec)" for k v kvs
  proof -
    have "map_of (new_payload ec) k \<noteq> None"
      using that(5) by (simp add: map_of_new_payload)
    from fold_set_field_assigned [OF that(2,3,4) this] that(1,3) show ?thesis
      by (auto simp: p set_event_fields_def)
  qed
  from e p keys copied skipped assigned show ?thesis
    by blast
qed


subsection \<open>Concrete runs\<close>

text \<open>
  Claim C1 says that the cursor stays on the event at a channel switch, so that the event
  is emitted on the next step. In the source the cursor is incremented before the streams
  are compared: for two regions on threads 1 and 2 the loader yields four events, and
  the start event of the second region, at 2000, is consumed by the stream beginning of
  its channel and never emitted.
\<close>

theorem channel_switch_drops_event:
  "map timestamp (load_events two_thread_database) = [1000, 1005, 2000, 2005] \<and>
   map get_channel_id (load_events two_thread_database) =
     [''unknown_thread_1'', ''unknown_thread_1'', ''unknown_thread_2'', ''unknown_thread_2''] \<and>
   map frame_of (messages (RocmSourceIterator_init create_event_classes two_thread_database)) =
     [Begin 0, Event 0 1000, Event 0 1005, Begin 1, Event 1 2005, End 1]"
  by code_simp



theorem stream_created_once_per_key_witness:
  "get_channel_id (example_event ''a'' 1 1) = get_channel_id (example_event ''d'' 4 1) \<and>
   get_or_create_stream
     ((step ^^ 3) (snd (get_or_create_stream (iter_init create_event_classes example_events)
        (example_event ''a'' 1 1))))
     (example_event ''d'' 4 1)
   = (0, (step ^^ 3) (snd (get_or_create_stream (iter_init create_event_classes example_events)
        (example_event ''a'' 1 1))))"
proof -
  have same: "get_channel_id (example_event ''a'' 1 1) = get_channel_id (example_event ''d'' 4 1)"
    by (simp add: get_channel_id_def example_event_def RocmEventData_def)
  have first: "fst (get_or_create_stream (iter_init create_event_classes example_events)
        (example_event ''a'' 1 1)) = 0"
    by (simp add: get_or_create_stream_def iter_init_def Let_def)
  show ?thesis
    using stream_created_once_per_key
      [where ?e1.0 = "example_event ''a'' 1 1" and ?e2.0 = "example_event ''d'' 4 1"
         and n = 3 and it = "iter_init create_event_classes example_events"] same first
    by simp
qed

text \<open>The payload of the first event message of the example run.\<close>

definition example_payload :: payload where
  "example_payload =
     [(''kernel_name'', None), (''event_type'', Some (PyStr ''a'')), (''dispatch_id'', None),
      (''queue_id'', None), (''stream_id'', None), (''workgroup_size'', None),
      (''grid_size'', None), (''duration'', Some (PyInt 0))]"

theorem payload_within_schema_witness:
  "EventMsg \<lparr>ec_name = ''kernel_dispatch_event'', payload_fc = kernel_payload_fc\<rparr> 0 1
      example_payload
     \<in> set (messages (iter_init create_event_classes example_events)) \<and>
   map fst example_payload = map fst kernel_payload_fc \<and>
   map_of example_payload ''priority'' = None \<and>
   map_of example_payload ''dispatch_id'' = Some None"
proof -
  have "messages (iter_init create_event_classes example_events) ! 1 =
      EventMsg \<lparr>ec_name = ''kernel_dispatch_event'', payload_fc = kernel_payload_fc\<rparr> 0 1
        example_payload"
    by code_simp
  moreover have "1 < length (messages (iter_init create_event_classes example_events))"
    by code_simp
  ultimately have mem: "EventMsg \<lparr>ec_name = ''kernel_dispatch_event'', payload_fc = kernel_payload_fc\<rparr> 0 1
        example_payload \<in> set (messages (iter_init create_event_classes example_events))"
    using nth_mem [of 1 "messages (iter_init create_event_classes example_events)"] by simp
  from payload_within_schema [OF mem] mem show ?thesis
    by (simp add: example_payload_def)
qed

end
